theory Spec2Isabelle
  imports Complex_Main "HOL-Library.AList_Mapping"
begin

section \<open>Python strings and POSIX paths\<close>

text \<open>
  Python strings are modelled as \<open>string\<close>; a character is an 8-bit code point
  (ASCII and Latin-1).  The functions of this section are the \<open>str\<close> methods and the
  \<open>os.path\<close> functions (in their \<open>posixpath\<close> form) that
  \<open>onAnonymizeButton\<close> calls on file names and on extracted text.
\<close>

definition startswith :: "string \<Rightarrow> string \<Rightarrow> bool" where
  "startswith s p = (take (length p) s = p)"

definition endswith :: "string \<Rightarrow> string \<Rightarrow> bool" where
  "endswith s p = (length p \<le> length s \<and> drop (length s - length p) s = p)"

text \<open>\<open>str.lower\<close>, on the ASCII letters.\<close>

definition lower_char :: "char \<Rightarrow> char" where
  "lower_char c =
     (case map_of (zip ''ABCDEFGHIJKLMNOPQRSTUVWXYZ'' ''abcdefghijklmnopqrstuvwxyz'') c of
        Some d \<Rightarrow> d
      | None \<Rightarrow> c)"

definition lower :: "string \<Rightarrow> string" where
  "lower s = map lower_char s"

text \<open>\<open>s.rfind(c)\<close> for a one-character \<open>c\<close>: the last index of \<open>c\<close>, or \<open>-1\<close>.\<close>

fun rfind_from :: "char \<Rightarrow> string \<Rightarrow> nat \<Rightarrow> int \<Rightarrow> int" where
  "rfind_from c [] i found = found"
| "rfind_from c (x # xs) i found = rfind_from c xs (Suc i) (if x = c then int i else found)"

definition rfind :: "string \<Rightarrow> char \<Rightarrow> int" where
  "rfind s c = rfind_from c s 0 (- 1)"

text \<open>\<open>os.path.basename(p)\<close>: \<open>i = p.rfind('/') + 1; return p[i:]\<close>.\<close>

definition basename :: "string \<Rightarrow> string" where
  "basename p = drop (nat (rfind p CHR ''/'' + 1)) p"

text \<open>\<open>os.path.join(a, b)\<close> with two arguments.\<close>

definition path_join :: "string \<Rightarrow> string \<Rightarrow> string" where
  "path_join a b =
     (if startswith b ''/'' then b
      else if a = [] \<or> endswith a ''/'' then a @ b
      else a @ ''/'' @ b)"

text \<open>
  \<open>os.path.splitext(p)\<close>.  The loop of \<open>genericpath._splitext\<close> skips the leading
  dots of the last path component: it splits at the last dot only when some character
  between the last separator and that dot is not a dot.
\<close>

fun has_non_dot :: "string \<Rightarrow> bool" where
  "has_non_dot [] = False"
| "has_non_dot (c # cs) = (if c \<noteq> CHR ''.'' then True else has_non_dot cs)"

definition splitext :: "string \<Rightarrow> string \<times> string" where
  "splitext p =
     (let sepIndex = rfind p CHR ''/'';
          dotIndex = rfind p CHR ''.''
      in if dotIndex > sepIndex \<and>
            has_non_dot (take (nat dotIndex - nat (sepIndex + 1)) (drop (nat (sepIndex + 1)) p))
         then (take (nat dotIndex) p, drop (nat dotIndex) p)
         else (p, []))"

text \<open>
  \<open>s.replace(old, new)\<close>: every non-overlapping occurrence of \<open>old\<close>, scanning from the
  left, is replaced.  For an empty \<open>old\<close> Python inserts \<open>new\<close> before every character
  and at the end.
\<close>

function replace :: "string \<Rightarrow> string \<Rightarrow> string \<Rightarrow> string" where
  "replace old new s =
     (if old = [] then concat (map (\<lambda>c. new @ [c]) s) @ new
      else if s = [] then []
      else if startswith s old then new @ replace old new (drop (length old) s)
      else hd s # replace old new (tl s))"
  by pat_completeness auto
termination
  by (relation "measure (\<lambda>(old, new, s). length s)") auto

declare replace.simps [simp del]

text \<open>\<open>s.split(c)\<close> for a one-character separator, and \<open>sep.join(xs)\<close>.\<close>

fun split_on :: "char \<Rightarrow> string \<Rightarrow> string list" where
  "split_on c [] = [[]]"
| "split_on c (x # xs) =
     (if x = c then [] # split_on c xs
      else (case split_on c xs of [] \<Rightarrow> [[x]] | w # ws \<Rightarrow> (x # w) # ws))"

fun join_with :: "string \<Rightarrow> string list \<Rightarrow> string" where
  "join_with sep [] = []"
| "join_with sep [x] = x"
| "join_with sep (x # y # zs) = x @ sep @ join_with sep (y # zs)"

text \<open>
  The whitespace of \<open>str.strip()\<close> and \<open>str.split()\<close> among the 8-bit code points:
  tab, line feed, vertical tab, form feed, carriage return, the separators
  \<open>0x1C\<close> to \<open>0x1F\<close>, space, \<open>0x85\<close> and \<open>0xA0\<close>.
\<close>

definition is_space :: "char \<Rightarrow> bool" where
  "is_space c =
     (let n = (of_char c :: nat)
      in (9 \<le> n \<and> n \<le> 13) \<or> (28 \<le> n \<and> n \<le> 32) \<or> n = 133 \<or> n = 160)"

definition strip :: "string \<Rightarrow> string" where
  "strip s = rev (dropWhile is_space (rev (dropWhile is_space s)))"

text \<open>\<open>s.split()\<close>: the maximal runs of characters that are not whitespace.\<close>

fun split_ws_from :: "string \<Rightarrow> string \<Rightarrow> string list" where
  "split_ws_from cur [] = (if cur = [] then [] else [cur])"
| "split_ws_from cur (c # cs) =
     (if is_space c
      then (if cur = [] then split_ws_from [] cs else cur # split_ws_from [] cs)
      else split_ws_from (cur @ [c]) cs)"

definition split_ws :: "string \<Rightarrow> string list" where
  "split_ws s = split_ws_from [] s"


abbreviation LF :: char where
  "LF \<equiv> CHR 0x0A"

abbreviation CR :: char where
  "CR \<equiv> CHR 0x0D"

section \<open>Data model\<close>

text \<open>
  A raised exception is the left injection of a sum and carries \<open>str(e)\<close>.  Every
  exception of the model is an instance of \<open>Exception\<close>, the class the handlers of
  \<open>onAnonymizeButton\<close> and \<open>anonymize_text_presidio\<close> catch.
\<close>

text \<open>The entries of \<open>file_mappings\<close>: the three keys of each appended dictionary.\<close>

record mapping_record =
  original_file_name :: string
  anonymized_file_name :: string
  uuid :: string

text \<open>A page of a document opened by \<open>pdfplumber\<close>: what its two methods give.\<close>

record pdf_page =
  extract_text :: "string + string option"
  extract_tables :: "string + string option list list list"

text \<open>An \<open>ElementTree\<close> element, and a child node of an ODF paragraph.\<close>

datatype element =
  Element (elem_text: "string option") (elem_children: "element list") (elem_tail: "string option")

datatype odf_node = TextNode string | OtherNode

text \<open>\<open>presidio_anonymizer.entities.OperatorConfig(name, params)\<close>.\<close>

datatype param = StrParam string | IntParam int | BoolParam bool

datatype operator_config =
  OperatorConfig (operator_name: string) (params: "(string \<times> param) list")

text \<open>A result of \<open>AnalyzerEngine.analyze\<close>.\<close>

record recognizer_result =
  entity_type :: string
  span_start :: nat
  span_end :: nat
  score :: real

text \<open>
  What one run does beyond the mappings it returns, in the order it happens: a call of
  \<open>anonymize_text_presidio\<close> with the extracted text, the construction of the
  \<open>operators\<close> dictionary inside it, and an output file saved at a path.
\<close>

datatype event =
    PolicyEngineCalled string
  | OperatorsBuilt "(string, operator_config) mapping"
  | OutputSaved string

text \<open>
  The values read from the widgets at the start of \<open>onAnonymizeButton\<close>.
\<close>

record config =
  input_folder :: string
  output_folder :: string
  selected_entities :: "string list"
  anonymization_method :: string
  score_threshold :: real

text \<open>
  The libraries and the file system, as the functions the module calls.  \<open>'w\<close> is the
  state they act on.  A reader returns what the library call returns or the message of
  the exception it raises; a writer returns the message of its exception, if any, and
  the state it leaves.
\<close>

record 'w env =
  import_error :: "string \<Rightarrow> string option"
  engines_error :: "string option"
  os_walk :: "'w \<Rightarrow> string \<Rightarrow> (string \<times> string list \<times> string list) list"
  uuid4 :: "'w \<Rightarrow> string \<times> 'w"
  docx_Document :: "'w \<Rightarrow> string \<Rightarrow> string + string list"
  open_read :: "'w \<Rightarrow> string \<Rightarrow> string + string"
  pdfplumber_open :: "'w \<Rightarrow> string \<Rightarrow> string + pdf_page list"
  csv_reader :: "'w \<Rightarrow> string \<Rightarrow> string + string list list"
  ET_parse :: "'w \<Rightarrow> string \<Rightarrow> string + element"
  recursion_limit :: nat
  odf_load :: "'w \<Rightarrow> string \<Rightarrow> string + odf_node list list"
  analyze :: "string \<Rightarrow> string list \<Rightarrow> real \<Rightarrow> string + recognizer_result list"
  anonymize :: "string \<Rightarrow> recognizer_result list \<Rightarrow>
                (string, operator_config) mapping option \<Rightarrow> string + string"
  docx_save :: "'w \<Rightarrow> string \<Rightarrow> string list \<Rightarrow> string option \<times> 'w"
  open_write :: "'w \<Rightarrow> string \<Rightarrow> string \<Rightarrow> string option \<times> 'w"
  pdf_build :: "'w \<Rightarrow> string \<Rightarrow> string \<Rightarrow> string option \<times> 'w"
  csv_write :: "'w \<Rightarrow> string \<Rightarrow> string list list \<Rightarrow> string option \<times> 'w"
  to_csv :: "'w \<Rightarrow> string \<Rightarrow> mapping_record list \<Rightarrow> string option \<times> 'w"

section \<open>Discovery (lines 251 to 256)\<close>

definition supported_suffixes :: "string list" where
  "supported_suffixes = [''.docx'', ''.txt'', ''.pdf'', ''.csv'', ''.xml'', ''.odt'']"

definition is_selected :: "string \<Rightarrow> bool" where
  "is_selected file =
     (list_ex (endswith file) supported_suffixes \<and> \<not> startswith file ''~$'')"

definition discover :: "'w env \<Rightarrow> 'w \<Rightarrow> string \<Rightarrow> string list" where
  "discover env w folder =
     concat (map (\<lambda>(root, dirs, files). map (path_join root) (filter is_selected files))
                 (os_walk env w folder))"

section \<open>Extraction (lines 283 to 340)\<close>

text \<open>The first loop over the pages: the text so far, and the exception that ended it.\<close>

fun pdf_text_loop :: "pdf_page list \<Rightarrow> string \<Rightarrow> string \<times> string option" where
  "pdf_text_loop [] full_text = (full_text, None)"
| "pdf_text_loop (page # pages) full_text =
     (case extract_text page of
        Inl e \<Rightarrow> (full_text, Some e)
      | Inr None \<Rightarrow> pdf_text_loop pages full_text
      | Inr (Some t) \<Rightarrow>
          pdf_text_loop pages (if t \<noteq> [] then full_text @ t @ [LF] else full_text))"

definition row_line :: "string option list \<Rightarrow> string" where
  "row_line row =
     join_with '' '' (map (\<lambda>cell. case cell of None \<Rightarrow> [] | Some s \<Rightarrow> s) row) @ [LF]"

text \<open>The loop of the handler; its own exception is passed over (\<open>except: pass\<close>).\<close>

fun pdf_tables_loop :: "pdf_page list \<Rightarrow> string \<Rightarrow> string" where
  "pdf_tables_loop [] full_text = full_text"
| "pdf_tables_loop (page # pages) full_text =
     (case extract_tables page of
        Inl e \<Rightarrow> full_text
      | Inr tables \<Rightarrow> pdf_tables_loop pages (full_text @ concat (map row_line (concat tables))))"

definition extract_pdf :: "'w env \<Rightarrow> 'w \<Rightarrow> string \<Rightarrow> string + string" where
  "extract_pdf env w path =
     (case import_error env ''pdfplumber'' of
        Some e \<Rightarrow> Inl e
      | None \<Rightarrow>
          (case (case pdfplumber_open env w path of
                   Inl e \<Rightarrow> ([], Some e)
                 | Inr pages \<Rightarrow> pdf_text_loop pages []) of
             (full_text, None) \<Rightarrow> Inr full_text
           | (full_text, Some pdf_error) \<Rightarrow>
               (case pdfplumber_open env w path of
                  Inl e \<Rightarrow> Inr full_text
                | Inr pages \<Rightarrow> Inr (pdf_tables_loop pages full_text))))"

text \<open>
  \<open>extract_text_from_xml\<close>, with the number of nested calls the interpreter still
  allows: \<open>None\<close> is \<open>RecursionError\<close>.
\<close>

fun extract_text_from_xml :: "nat \<Rightarrow> element \<Rightarrow> string option" where
  "extract_text_from_xml 0 el = None"
| "extract_text_from_xml (Suc d) el =
     (case those (map (\<lambda>child.
                    case extract_text_from_xml d child of
                      None \<Rightarrow> None
                    | Some t \<Rightarrow>
                        Some (t @ (case elem_tail child of
                                     None \<Rightarrow> []
                                   | Some tail \<Rightarrow> if tail \<noteq> [] then tail @ '' '' else [])))
                  (elem_children el)) of
        None \<Rightarrow> None
      | Some parts \<Rightarrow>
          Some ((case elem_text el of
                   None \<Rightarrow> []
                 | Some t \<Rightarrow> if t \<noteq> [] then t @ '' '' else []) @ concat parts))"

definition odt_text :: "odf_node list list \<Rightarrow> string" where
  "odt_text paragraphs =
     concat (map (\<lambda>paragraph.
               concat (map (\<lambda>node. case node of TextNode d \<Rightarrow> d | OtherNode \<Rightarrow> []) paragraph)
               @ [LF]) paragraphs)"

definition csv_text :: "string list list \<Rightarrow> string" where
  "csv_text rows = concat (map (\<lambda>row. join_with '' '' row @ [LF]) rows)"

definition extract_full_text :: "'w env \<Rightarrow> 'w \<Rightarrow> string \<Rightarrow> string \<Rightarrow> string + string" where
  "extract_full_text env w path file_ext =
     (if file_ext = ''.docx'' then
        (case docx_Document env w path of
           Inl e \<Rightarrow> Inl e
         | Inr paragraphs \<Rightarrow> Inr (join_with [LF] paragraphs))
      else if file_ext = ''.txt'' then open_read env w path
      else if file_ext = ''.pdf'' then extract_pdf env w path
      else if file_ext = ''.csv'' then
        (case csv_reader env w path of
           Inl e \<Rightarrow> Inl e
         | Inr rows \<Rightarrow> Inr (csv_text rows))
      else if file_ext = ''.xml'' then
        (case ET_parse env w path of
           Inl e \<Rightarrow> Inl e
         | Inr xml_root \<Rightarrow>
             (case extract_text_from_xml (recursion_limit env) xml_root of
                None \<Rightarrow> Inl ''maximum recursion depth exceeded''
              | Some t \<Rightarrow> Inr t))
      else if file_ext = ''.odt'' then
        (case import_error env ''odf'' of
           Some e \<Rightarrow> Inl e
         | None \<Rightarrow>
             (case odf_load env w path of
                Inl e \<Rightarrow> Inl e
              | Inr paragraphs \<Rightarrow> Inr (odt_text paragraphs)))
      else Inl (''Unsupported file type: '' @ file_ext))"

section \<open>The policy engine (lines 446 to 498)\<close>

text \<open>Lines 468 to 485: the \<open>operators\<close> dictionary of a method and a list of entities.\<close>

definition build_operators :: "string \<Rightarrow> string list \<Rightarrow> (string, operator_config) mapping" where
  "build_operators method entities =
     (if method = ''replace'' then Mapping.empty
      else if method = ''redact'' then
        Mapping.tabulate entities (\<lambda>entity. OperatorConfig ''redact'' [])
      else if method = ''hash'' then
        Mapping.tabulate entities (\<lambda>entity. OperatorConfig ''hash'' [])
      else if method = ''mask'' then
        Mapping.tabulate entities
          (\<lambda>entity. OperatorConfig ''mask''
             [(''masking_char'', StrParam ''*''), (''chars_to_mask'', IntParam 100),
              (''from_end'', BoolParam False)])
      else Mapping.empty)"

text \<open>
  The text returned, and the dictionaries the call has built.  Both collaborators are
  called inside \<open>try\<close>; the handler returns \<open>text\<close>.
\<close>

definition anonymize_text_presidio ::
  "'w env \<Rightarrow> string \<Rightarrow> string list \<Rightarrow> string \<Rightarrow> real \<Rightarrow> string \<times> event list" where
  "anonymize_text_presidio env text entities method threshold =
     (case analyze env text entities threshold of
        Inl e \<Rightarrow> (text, [])
      | Inr results \<Rightarrow>
          (let operators = build_operators method entities
           in (case anonymize env text results
                      (if Mapping.is_empty operators then None else Some operators) of
                 Inl e \<Rightarrow> (text, [OperatorsBuilt operators])
               | Inr anonymized \<Rightarrow> (anonymized, [OperatorsBuilt operators]))))"

section \<open>The writer (lines 352 to 395 and \<open>save_str_pdf\<close>)\<close>

definition new_file_name :: "string \<Rightarrow> string \<Rightarrow> string" where
  "new_file_name file_ext file =
     (if file_ext = ''.docx'' then replace ''.docx'' ''_anonymized.docx'' file
      else if file_ext = ''.txt'' then replace ''.txt'' ''_anonymized.txt'' file
      else if file_ext = ''.pdf'' then replace ''.pdf'' ''_anonymized.pdf'' file
      else if file_ext = ''.csv'' then replace ''.csv'' ''_anonymized.csv'' file
      else if file_ext = ''.xml'' then replace ''.xml'' ''_anonymized.xml'' file
      else replace ''.odt'' ''_anonymized.txt'' file)"

definition output_path_of :: "string \<Rightarrow> string \<Rightarrow> string \<Rightarrow> string" where
  "output_path_of folder file_ext file = path_join folder (new_file_name file_ext file)"

definition csv_rows :: "string \<Rightarrow> string list list" where
  "csv_rows anonymized_text =
     map split_ws (filter (\<lambda>line. strip line \<noteq> []) (split_on LF anonymized_text))"

definition save_str_pdf :: "'w env \<Rightarrow> 'w \<Rightarrow> string \<Rightarrow> string \<Rightarrow> string option \<times> 'w" where
  "save_str_pdf env w text filename =
     (case import_error env ''reportlab'' of
        Some e \<Rightarrow> (Some e, w)
      | None \<Rightarrow> pdf_build env w filename text)"

text \<open>
  The second chain of \<open>if\<close>/\<open>elif\<close>: the exception of the save, or the new file name and
  the output path.  The chain has no \<open>else\<close>; an extension outside the six has already
  raised in the first chain, so the last branch is the one for \<open>.odt\<close>.
\<close>

definition save_output ::
  "'w env \<Rightarrow> 'w \<Rightarrow> string \<Rightarrow> string \<Rightarrow> string \<Rightarrow> string \<Rightarrow> (string + string \<times> string) \<times> 'w" where
  "save_output env w folder file file_ext anonymized_text =
     (let name = new_file_name file_ext file;
          output_path = path_join folder name;
          (raised, w') =
            (if file_ext = ''.docx'' then docx_save env w output_path (split_on LF anonymized_text)
             else if file_ext = ''.txt'' then open_write env w output_path anonymized_text
             else if file_ext = ''.pdf'' then save_str_pdf env w anonymized_text output_path
             else if file_ext = ''.csv'' then csv_write env w output_path (csv_rows anonymized_text)
             else open_write env w output_path anonymized_text)
      in (case raised of
            Some e \<Rightarrow> (Inl e, w')
          | None \<Rightarrow> (Inr (name, output_path), w')))"

section \<open>The batch (lines 272 to 414)\<close>

definition error_record :: "string \<Rightarrow> string \<Rightarrow> mapping_record" where
  "error_record file e =
     \<lparr>original_file_name = file, anonymized_file_name = ''ERROR'', uuid = ''Error: '' @ e\<rparr>"

text \<open>Line 281: \<open>os.path.splitext(file)[1].lower()\<close>.\<close>

definition file_ext_of :: "string \<Rightarrow> string" where
  "file_ext_of file = lower (snd (splitext file))"

text \<open>One iteration of the loop: the record appended, the events, the state left.\<close>

definition process_file ::
  "'w env \<Rightarrow> config \<Rightarrow> 'w \<Rightarrow> string \<Rightarrow> mapping_record \<times> event list \<times> 'w" where
  "process_file env cfg w input_file_path =
     (let file = basename input_file_path;
          (unique_id, w1) = uuid4 env w;
          file_ext = file_ext_of file
      in (case extract_full_text env w1 input_file_path file_ext of
            Inl e \<Rightarrow> (error_record file e, [], w1)
          | Inr full_text \<Rightarrow>
              (let (anonymized_text, built) =
                     anonymize_text_presidio env full_text (selected_entities cfg)
                       (anonymization_method cfg) (score_threshold cfg)
               in (case save_output env w1 (output_folder cfg) file file_ext anonymized_text of
                     (Inl e, w2) \<Rightarrow>
                       (error_record file e, PolicyEngineCalled full_text # built, w2)
                   | (Inr (name, output_path), w2) \<Rightarrow>
                       (\<lparr>original_file_name = file, anonymized_file_name = name,
                         uuid = unique_id\<rparr>,
                        PolicyEngineCalled full_text # built @ [OutputSaved output_path],
                        w2)))))"

text \<open>The loop over \<open>supported_files\<close>: \<open>file_mappings\<close> in the order of the appends.\<close>

fun process_files ::
  "'w env \<Rightarrow> config \<Rightarrow> 'w \<Rightarrow> string list \<Rightarrow> mapping_record list \<times> event list \<times> 'w" where
  "process_files env cfg w [] = ([], [], w)"
| "process_files env cfg w (p # ps) =
     (let (r, evs, w1) = process_file env cfg w p;
          (rs, evs', w2) = process_files env cfg w1 ps
      in (r # rs, evs @ evs', w2))"

text \<open>
  \<open>onAnonymizeButton\<close>: the early returns, an exception that leaves the method, or
  the mappings, the events and the final state.
\<close>

datatype 'w run_result =
    Returned_early string
  | Raised string
  | Complete "mapping_record list" "event list" 'w

definition onAnonymizeButton :: "'w env \<Rightarrow> config \<Rightarrow> 'w \<Rightarrow> 'w run_result" where
  "onAnonymizeButton env cfg w =
     (if input_folder cfg = [] then Returned_early ''Input Required''
      else if output_folder cfg = [] then Returned_early ''Input Required''
      else if import_error env ''presidio_analyzer'' \<noteq> None
              \<or> import_error env ''presidio_anonymizer'' \<noteq> None
              \<or> import_error env ''docx'' \<noteq> None
           then Returned_early ''Dependencies Not Installed''
      else if selected_entities cfg = [] then Returned_early ''No Options Selected''
      else (case engines_error env of
              Some e \<Rightarrow> Raised e
            | None \<Rightarrow>
                (let csv_file_path = path_join (output_folder cfg) ''file_mappings.csv'';
                     supported_files = discover env w (input_folder cfg)
                 in if supported_files = [] then Returned_early ''No Files Found''
                    else (let (file_mappings, evs, w1) = process_files env cfg w supported_files
                          in if file_mappings \<noteq> [] then
                               (case to_csv env w1 csv_file_path file_mappings of
                                  (Some e, w2) \<Rightarrow> Raised e
                                | (None, w2) \<Rightarrow> Complete file_mappings evs w2)
                             else Complete file_mappings evs w1))))"

section \<open>Observations on a run\<close>

text \<open>The dictionaries built during a run, and the paths saved, in order.\<close>

fun builds :: "event list \<Rightarrow> (string, operator_config) mapping list" where
  "builds [] = []"
| "builds (OperatorsBuilt operators # evs) = operators # builds evs"
| "builds (ev # evs) = builds evs"


fun policy_engine_calls :: "event list \<Rightarrow> string list" where
  "policy_engine_calls [] = []"
| "policy_engine_calls (PolicyEngineCalled full_text # evs) = full_text # policy_engine_calls evs"
| "policy_engine_calls (ev # evs) = policy_engine_calls evs"

text \<open>\<open>os.walk\<close> lists the entries of a directory: no name holds a separator.\<close>

definition walk_names_ok :: "'w env \<Rightarrow> 'w \<Rightarrow> string \<Rightarrow> bool" where
  "walk_names_ok env w folder =
     list_all (\<lambda>(root, dirs, files). list_all (\<lambda>file. CHR ''/'' \<notin> set file) files)
       (os_walk env w folder)"

section \<open>The fixed-layout extraction as the specification words it\<close>

text \<open>
  Section 4.1 of the specification: text per page in page order; for a page with no
  text layer, the rows of the tables of that same page; a page where both fail
  contributes nothing.
\<close>

definition page_table_rows :: "pdf_page \<Rightarrow> string" where
  "page_table_rows page =
     (case extract_tables page of
        Inl e \<Rightarrow> []
      | Inr tables \<Rightarrow> concat (map row_line (concat tables)))"

definition spec_page_text :: "pdf_page \<Rightarrow> string" where
  "spec_page_text page =
     (case extract_text page of
        Inl e \<Rightarrow> page_table_rows page
      | Inr None \<Rightarrow> page_table_rows page
      | Inr (Some t) \<Rightarrow> if t \<noteq> [] then t @ [LF] else page_table_rows page)"

definition spec_extract_pdf :: "pdf_page list \<Rightarrow> string" where
  "spec_extract_pdf pages = concat (map spec_page_text pages)"

text \<open>
  What the two loops of the code take from a page: its text followed by a line feed when
  it has one, and whether a call on the page raises.
\<close>

definition page_text :: "pdf_page \<Rightarrow> string" where
  "page_text page =
     (case extract_text page of
        Inl e \<Rightarrow> []
      | Inr None \<Rightarrow> []
      | Inr (Some t) \<Rightarrow> if t \<noteq> [] then t @ [LF] else [])"

definition text_raises :: "pdf_page \<Rightarrow> bool" where
  "text_raises page = (case extract_text page of Inl e \<Rightarrow> True | Inr t \<Rightarrow> False)"

definition tables_raise :: "pdf_page \<Rightarrow> bool" where
  "tables_raise page = (case extract_tables page of Inl e \<Rightarrow> True | Inr t \<Rightarrow> False)"

section \<open>An in-memory file system\<close>

text \<open>
  A file system in which every library reads back what it has stored: \<open>python-docx\<close>
  the paragraphs, the \<open>csv\<close> module the rows, \<open>pdfplumber\<close> the pages.  A text file
  holds the characters written (\<open>os.linesep\<close> is the line feed); reading it in text
  mode, with \<open>newline=None\<close>, translates CR LF and a lone CR to the line feed.  The
  detection finds nothing and the transformation returns the text.
\<close>

fun universal_newlines :: "string \<Rightarrow> string" where
  "universal_newlines [] = []"
| "universal_newlines [c] = [if c = CR then LF else c]"
| "universal_newlines (c # d # cs) =
     (if c = CR \<and> d = LF then LF # universal_newlines cs
      else (if c = CR then LF else c) # universal_newlines (d # cs))"

datatype stored =
    StoredText string
  | StoredDocx "string list"
  | StoredCsv "string list list"
  | StoredPdf "pdf_page list"
  | StoredPreformatted string
  | StoredXml element
  | StoredOdt "odf_node list list"

record disk =
  listing :: "(string \<times> string list \<times> string list) list"
  contents :: "string \<Rightarrow> stored option"
  issued :: nat

definition store :: "disk \<Rightarrow> string \<Rightarrow> stored \<Rightarrow> string option \<times> disk" where
  "store d path x = (None, d\<lparr>contents := (contents d)(path \<mapsto> x)\<rparr>)"

definition report_rows :: "mapping_record list \<Rightarrow> string list list" where
  "report_rows rs =
     [''Original File Name'', ''Anonymized File Name'', ''UUID''] #
     map (\<lambda>r. [original_file_name r, anonymized_file_name r, uuid r]) rs"

definition disk_env :: "disk env" where
  "disk_env =
     \<lparr>import_error = (\<lambda>module. None),
      engines_error = None,
      os_walk = (\<lambda>d folder. listing d),
      uuid4 = (\<lambda>d. (''uuid-'' @ replicate (Suc (issued d)) CHR ''1'',
                    d\<lparr>issued := Suc (issued d)\<rparr>)),
      docx_Document = (\<lambda>d path. case contents d path of
                          Some (StoredDocx paragraphs) \<Rightarrow> Inr paragraphs
                        | _ \<Rightarrow> Inl ''Package not found''),
      open_read = (\<lambda>d path. case contents d path of
                      Some (StoredText s) \<Rightarrow> Inr (universal_newlines s)
                    | _ \<Rightarrow> Inl ''cannot read as text''),
      pdfplumber_open = (\<lambda>d path. case contents d path of
                            Some (StoredPdf pages) \<Rightarrow> Inr pages
                          | _ \<Rightarrow> Inl ''No /Root object''),
      csv_reader = (\<lambda>d path. case contents d path of
                       Some (StoredCsv rows) \<Rightarrow> Inr rows
                     | _ \<Rightarrow> Inl ''cannot read as csv''),
      ET_parse = (\<lambda>d path. case contents d path of
                     Some (StoredXml el) \<Rightarrow> Inr el
                   | _ \<Rightarrow> Inl ''syntax error''),
      recursion_limit = 900,
      odf_load = (\<lambda>d path. case contents d path of
                     Some (StoredOdt paragraphs) \<Rightarrow> Inr paragraphs
                   | _ \<Rightarrow> Inl ''File is not a zip file''),
      analyze = (\<lambda>text entities threshold. Inr []),
      anonymize = (\<lambda>text results operators. Inr text),
      docx_save = (\<lambda>d path paragraphs. store d path (StoredDocx paragraphs)),
      open_write = (\<lambda>d path s. store d path (StoredText s)),
      pdf_build = (\<lambda>d path s. store d path (StoredPreformatted s)),
      csv_write = (\<lambda>d path rows. store d path (StoredCsv rows)),
      to_csv = (\<lambda>d path rs. store d path (StoredCsv (report_rows rs)))\<rparr>"




text \<open>
  Fixed-layout documents: a scanned page with a table and no text layer, a page with
  text and a table, and a page on which both calls raise.
\<close>

definition scanned_page :: pdf_page where
  "scanned_page =
     \<lparr>extract_text = Inr None,
      extract_tables = Inr [[[Some ''Name'', Some ''Smith'']]]\<rparr>"

definition text_page :: pdf_page where
  "text_page =
     \<lparr>extract_text = Inr (Some ''Report''),
      extract_tables = Inr [[[Some ''Age'', None, Some ''42'']]]\<rparr>"

definition raising_page :: pdf_page where
  "raising_page =
     \<lparr>extract_text = Inl ''malformed content stream'',
      extract_tables = Inl ''malformed content stream''\<rparr>"

definition pdf_disk :: disk where
  "pdf_disk =
     \<lparr>listing = [(''/in'', [], [''scan.pdf'', ''mixed.pdf''])],
      contents =
        [''/in/scan.pdf'' \<mapsto> StoredPdf [scanned_page],
         ''/in/mixed.pdf'' \<mapsto> StoredPdf [text_page, scanned_page, raising_page]],
      issued = 0\<rparr>"

text \<open>The same libraries with a detection that raises.\<close>

definition failing_detection_env :: "disk env" where
  "failing_detection_env =
     disk_env\<lparr>analyze := (\<lambda>text entities threshold. Inl ''detection failed'')\<rparr>"

definition example_config :: config where
  "example_config =
     \<lparr>input_folder = ''/in'', output_folder = ''/out'',
      selected_entities = [''PERSON'', ''PHONE_NUMBER''],
      anonymization_method = ''mask'', score_threshold = 0.5\<rparr>"

text \<open>
  An input tree: two files named \<open>x.txt\<close> in different subdirectories, a file that is
  not text, a name in upper case, a name that is only a suffix and a lock file.
\<close>

definition example_disk :: disk where
  "example_disk =
     \<lparr>listing =
        [(''/in'', [''a'', ''b''], [''report.TXT'', ''.txt'', ''~$draft.docx'']),
         (''/in/a'', [], [''x.txt'']),
         (''/in/b'', [], [''x.txt'', ''broken.txt''])],
      contents =
        [''/in/report.TXT'' \<mapsto> StoredText ''upper'',
         ''/in/.txt'' \<mapsto> StoredText ''hidden'',
         ''/in/a/x.txt'' \<mapsto> StoredText ''first'',
         ''/in/b/x.txt'' \<mapsto> StoredText ''second'',
         ''/in/b/broken.txt'' \<mapsto> StoredPdf []],
      issued = 0\<rparr>"

section \<open>Properties of the string and path functions\<close>




lemma rfind_from_notin: "c \<notin> set s \<Longrightarrow> rfind_from c s i found = found"
  by (induction s arbitrary: i found) auto

lemma rfind_from_append_last:
  "c \<notin> set t \<Longrightarrow> rfind_from c (s @ c # t) i found = int (i + length s)"
  by (induction s arbitrary: i found) (auto simp: rfind_from_notin)

lemma basename_no_sep: "CHR ''/'' \<notin> set f \<Longrightarrow> basename f = f"
  by (simp add: basename_def rfind_def rfind_from_notin)

lemma basename_append: "CHR ''/'' \<notin> set f \<Longrightarrow> basename (a @ CHR ''/'' # f) = f"
  by (simp add: basename_def rfind_def rfind_from_append_last nat_add_distrib)

lemma endswith_sep: "a \<noteq> [] \<Longrightarrow> endswith a ''/'' \<Longrightarrow> \<exists>b. a = b @ ''/''"
  apply (simp add: endswith_def)
  by (metis append_take_drop_id)

lemma basename_path_join: "CHR ''/'' \<notin> set f \<Longrightarrow> basename (path_join a f) = f"
proof -
  assume nf: "CHR ''/'' \<notin> set f"
  have ns: "\<not> startswith f ''/''"
    using nf by (cases f) (auto simp: startswith_def)
  show ?thesis
  proof (cases "a = []")
    case True
    then show ?thesis using ns nf by (simp add: path_join_def basename_no_sep)
  next
    case False
    show ?thesis
    proof (cases "endswith a ''/''")
      case True
      then obtain b where "a = b @ ''/''" using endswith_sep[OF False] by blast
      then show ?thesis using ns nf True basename_append[of f b] by (simp add: path_join_def)
    next
      case e: False
      then show ?thesis using ns nf False basename_append[of f a] by (simp add: path_join_def)
    qed
  qed
qed








section \<open>Properties of one iteration and of the loop\<close>

lemma process_file_original:
  "original_file_name (fst (process_file env cfg w p)) = basename p"
  by (simp add: process_file_def Let_def split_beta error_record_def
        split: sum.splits prod.splits)

lemma process_files_original:
  "map original_file_name (fst (process_files env cfg w ps)) = map basename ps"
  by (induction ps arbitrary: w) (simp_all add: split_beta Let_def process_file_original)

lemma process_files_length:
  "length (fst (process_files env cfg w ps)) = length ps"
  by (induction ps arbitrary: w) (simp_all add: split_beta Let_def)

lemma complete_run:
  assumes "onAnonymizeButton env cfg w = Complete recs evs w'"
  shows "discover env w (input_folder cfg) \<noteq> [] \<and>
         recs = fst (process_files env cfg w (discover env w (input_folder cfg))) \<and>
         evs = fst (snd (process_files env cfg w (discover env w (input_folder cfg))))"
  using assms
  by (auto simp: onAnonymizeButton_def Let_def split_beta
        split: if_splits option.splits prod.splits)

section \<open>Evaluation in the in-memory file system\<close>

lemma disk_env_fields:
  "import_error disk_env m = None"
  "engines_error disk_env = None"
  "os_walk disk_env d folder = listing d"
  "uuid4 disk_env d = (''uuid-'' @ replicate (Suc (issued d)) CHR ''1'', d\<lparr>issued := Suc (issued d)\<rparr>)"
  "docx_Document disk_env d path =
     (case contents d path of Some (StoredDocx paragraphs) \<Rightarrow> Inr paragraphs
      | _ \<Rightarrow> Inl ''Package not found'')"
  "open_read disk_env d path =
     (case contents d path of Some (StoredText s) \<Rightarrow> Inr (universal_newlines s)
      | _ \<Rightarrow> Inl ''cannot read as text'')"
  "pdfplumber_open disk_env d path =
     (case contents d path of Some (StoredPdf pages) \<Rightarrow> Inr pages
      | _ \<Rightarrow> Inl ''No /Root object'')"
  "csv_reader disk_env d path =
     (case contents d path of Some (StoredCsv rows) \<Rightarrow> Inr rows
      | _ \<Rightarrow> Inl ''cannot read as csv'')"
  "analyze disk_env t es th = Inr []"
  "anonymize disk_env t rs ops = Inr t"
  "docx_save disk_env d path ps = store d path (StoredDocx ps)"
  "open_write disk_env d path s = store d path (StoredText s)"
  "pdf_build disk_env d path s = store d path (StoredPreformatted s)"
  "csv_write disk_env d path rows = store d path (StoredCsv rows)"
  "to_csv disk_env d path recs = store d path (StoredCsv (report_rows recs))"
  by (simp_all add: disk_env_def)

lemma process_file_unsupported:
  assumes "file_ext_of (basename p) \<notin> set supported_suffixes"
  shows "process_file env cfg w p =
           (error_record (basename p) (''Unsupported file type: '' @ file_ext_of (basename p)),
            [], snd (uuid4 env w))"
  using assms
  by (simp add: process_file_def extract_full_text_def supported_suffixes_def Let_def split_beta)

lemma disk_process_text_file:
  assumes "file_ext_of (basename p) = ''.txt''"
  shows "process_file disk_env cfg d p =
    (case contents d p of
       Some (StoredText s) \<Rightarrow>
         (\<lparr>original_file_name = basename p,
           anonymized_file_name = new_file_name ''.txt'' (basename p),
           uuid = ''uuid-'' @ replicate (Suc (issued d)) CHR ''1''\<rparr>,
          [PolicyEngineCalled (universal_newlines s),
           OperatorsBuilt (build_operators (anonymization_method cfg) (selected_entities cfg)),
           OutputSaved (path_join (output_folder cfg) (new_file_name ''.txt'' (basename p)))],
          d\<lparr>issued := Suc (issued d),
            contents := (contents d)
              (path_join (output_folder cfg) (new_file_name ''.txt'' (basename p)) \<mapsto>
                 StoredText (universal_newlines s))\<rparr>)
     | _ \<Rightarrow> (error_record (basename p) ''cannot read as text'', [], d\<lparr>issued := Suc (issued d)\<rparr>))"
  using assms
  by (simp add: process_file_def extract_full_text_def save_output_def anonymize_text_presidio_def
        disk_env_fields store_def Let_def split_beta split: option.splits stored.splits)

lemma example_discover:
  "discover disk_env example_disk ''/in'' =
     [''/in/.txt'', ''/in/a/x.txt'', ''/in/b/x.txt'', ''/in/b/broken.txt'']"
  by (simp add: discover_def disk_env_fields example_disk_def is_selected_def
        supported_suffixes_def endswith_def startswith_def path_join_def)

lemma example_names:
  "basename ''/in/.txt'' = ''.txt''"
  "basename ''/in/a/x.txt'' = ''x.txt''"
  "basename ''/in/b/x.txt'' = ''x.txt''"
  "basename ''/in/b/broken.txt'' = ''broken.txt''"
  "file_ext_of ''.txt'' = []"
  "file_ext_of ''x.txt'' = ''.txt''"
  "file_ext_of ''broken.txt'' = ''.txt''"
  "new_file_name ''.txt'' ''x.txt'' = ''x_anonymized.txt''"
  "path_join ''/out'' ''x_anonymized.txt'' = ''/out/x_anonymized.txt''"
  by (simp_all add: basename_def rfind_def file_ext_of_def lower_def lower_char_def splitext_def
        new_file_name_def replace.simps startswith_def endswith_def path_join_def)

lemma example_run:
  "fst (process_files disk_env example_config example_disk
          [''/in/.txt'', ''/in/a/x.txt'', ''/in/b/x.txt'', ''/in/b/broken.txt'']) =
     [\<lparr>original_file_name = ''.txt'', anonymized_file_name = ''ERROR'',
       uuid = ''Error: Unsupported file type: ''\<rparr>,
      \<lparr>original_file_name = ''x.txt'', anonymized_file_name = ''x_anonymized.txt'',
       uuid = ''uuid-11''\<rparr>,
      \<lparr>original_file_name = ''x.txt'', anonymized_file_name = ''x_anonymized.txt'',
       uuid = ''uuid-111''\<rparr>,
      \<lparr>original_file_name = ''broken.txt'', anonymized_file_name = ''ERROR'',
       uuid = ''Error: cannot read as text''\<rparr>]"
  by (simp add: process_file_unsupported disk_process_text_file example_names disk_env_fields
        supported_suffixes_def error_record_def example_disk_def example_config_def)


lemma example_complete:
  "\<exists>recs evs d. onAnonymizeButton disk_env example_config example_disk = Complete recs evs d"
proof -
  let ?files = "[''/in/.txt'', ''/in/a/x.txt'', ''/in/b/x.txt'', ''/in/b/broken.txt'']"
  have ne: "fst (process_files disk_env example_config example_disk ?files) \<noteq> []"
    using process_files_length[of disk_env example_config example_disk ?files] by auto
  have folders: "input_folder example_config = ''/in''" "output_folder example_config = ''/out''"
    "selected_entities example_config \<noteq> []"
    by (simp_all add: example_config_def)
  show ?thesis
    using ne
    by (simp add: onAnonymizeButton_def folders example_discover disk_env_fields store_def
          Let_def split_beta)
qed

section \<open>Events of an iteration\<close>


lemma builds_append: "builds (xs @ ys) = builds xs @ builds ys"
  by (induction xs rule: builds.induct) simp_all

lemma policy_engine_calls_append:
  "policy_engine_calls (xs @ ys) = policy_engine_calls xs @ policy_engine_calls ys"
  by (induction xs rule: policy_engine_calls.induct) simp_all



lemma save_output_names:
  "fst (save_output env w folder file ext t) = Inr (name, path) \<Longrightarrow>
   name = new_file_name ext file \<and> path = output_path_of folder ext file"
  by (auto simp: save_output_def output_path_of_def Let_def split_beta split: option.splits)



section \<open>The fallback of the policy engine\<close>

lemma rfind_from_lower: "- 1 \<le> found \<Longrightarrow> - 1 \<le> rfind_from c s i found"
  by (induction s arbitrary: i found) auto

lemma file_ext_of_no_dot: "CHR ''.'' \<notin> set f \<Longrightarrow> file_ext_of f = []"
  using rfind_from_lower[of "- 1" "CHR ''/''" f 0]
  by (simp add: file_ext_of_def splitext_def rfind_def rfind_from_notin lower_def Let_def)

lemma replace_keeps_char:
  "old \<noteq> [] \<Longrightarrow> c \<in> set new \<Longrightarrow> c \<in> set s \<Longrightarrow> c \<in> set (replace old new s)"
proof (induction old new s rule: replace.induct)
  case (1 old new s)
  have ne: "s \<noteq> []" using "1.prems"(3) by auto
  show ?case
  proof (cases "startswith s old")
    case True
    then show ?thesis using "1.prems" ne by (subst replace.simps) simp
  next
    case False
    show ?thesis
    proof (cases "hd s = c")
      case True
      then show ?thesis using "1.prems" ne False by (subst replace.simps) simp
    next
      case nh: False
      then have "c \<in> set (tl s)" using "1.prems"(3) ne by (cases s) auto
      then have "c \<in> set (replace old new (tl s))"
        using "1.IH"(2)[OF "1.prems"(1) ne False "1.prems"(1,2)] by blast
      then show ?thesis using "1.prems" ne False by (subst replace.simps) simp
    qed
  qed
qed

lemma new_file_name_keeps_dot:
  "CHR ''.'' \<in> set f \<Longrightarrow> CHR ''.'' \<in> set (new_file_name e f)"
  by (simp add: new_file_name_def replace_keeps_char)

lemma new_file_name_not_sentinel:
  "file_ext_of f \<noteq> [] \<Longrightarrow> new_file_name e f \<noteq> ''ERROR''"
proof
  assume ext: "file_ext_of f \<noteq> []" and eq: "new_file_name e f = ''ERROR''"
  have "CHR ''.'' \<in> set f" using ext file_ext_of_no_dot by blast
  then have "CHR ''.'' \<in> set (new_file_name e f)" by (rule new_file_name_keeps_dot)
  then show False using eq by simp
qed

lemma extract_supported:
  "extract_full_text env w p ext = Inr t \<Longrightarrow> ext \<in> set supported_suffixes"
  by (auto simp: extract_full_text_def supported_suffixes_def split: if_splits)

lemma anonymize_text_presidio_fallback:
  assumes "analyze env t ents th = Inl e \<or>
           (\<exists>results. analyze env t ents th = Inr results \<and>
              anonymize env t results
                (if Mapping.is_empty (build_operators m ents) then None
                 else Some (build_operators m ents)) = Inl e)"
  shows "fst (anonymize_text_presidio env t ents m th) = t"
  using assms by (auto simp: anonymize_text_presidio_def Let_def)

lemma nominal_success_record:
  assumes unchanged: "fst (anonymize_text_presidio env t (selected_entities cfg)
                        (anonymization_method cfg) (score_threshold cfg)) = t"
    and ex: "extract_full_text env (snd (uuid4 env w)) p (file_ext_of (basename p)) = Inr t"
    and sv: "fst (save_output env (snd (uuid4 env w)) (output_folder cfg) (basename p)
                    (file_ext_of (basename p)) t) = Inr saved"
  shows "fst (process_file env cfg w p) =
            \<lparr>original_file_name = basename p,
             anonymized_file_name = new_file_name (file_ext_of (basename p)) (basename p),
             uuid = fst (uuid4 env w)\<rparr> \<and>
         new_file_name (file_ext_of (basename p)) (basename p) \<noteq> ''ERROR''"
proof -
  let ?ext = "file_ext_of (basename p)"
  obtain name path where saved: "saved = (name, path)" by (cases saved)
  have name: "name = new_file_name ?ext (basename p)"
    using save_output_names sv saved by metis
  have "?ext \<in> set supported_suffixes" using ex by (rule extract_supported)
  then have "?ext \<noteq> []" by (auto simp: supported_suffixes_def)
  then have ns: "new_file_name ?ext (basename p) \<noteq> ''ERROR''"
    by (rule new_file_name_not_sentinel)
  have "fst (process_file env cfg w p) =
          \<lparr>original_file_name = basename p, anonymized_file_name = name,
           uuid = fst (uuid4 env w)\<rparr>"
    using ex sv saved unchanged
    by (simp add: process_file_def Let_def split_beta split: prod.splits)
  then show ?thesis using name ns by simp
qed

lemma failing_env_fields:
  "analyze failing_detection_env t es th = Inl ''detection failed''"
  "uuid4 failing_detection_env d = uuid4 disk_env d"
  "open_read failing_detection_env d path = open_read disk_env d path"
  "open_write failing_detection_env d path s = open_write disk_env d path s"
  by (simp_all add: failing_detection_env_def)

section \<open>What the discovery selects\<close>

lemma discover_selected:
  assumes "walk_names_ok env w folder" and "p \<in> set (discover env w folder)"
  shows "is_selected (basename p)"
proof -
  from assms(2) obtain r ds fs f where
    tr: "(r, ds, fs) \<in> set (os_walk env w folder)" and f: "f \<in> set fs" and
    sel: "is_selected f" and p: "p = path_join r f"
    by (auto simp: discover_def)
  have "CHR ''/'' \<notin> set f"
    using assms(1) tr f by (auto simp: walk_names_ok_def list_all_iff)
  then show ?thesis using sel p by (simp add: basename_path_join)
qed

section \<open>The two loops over the pages\<close>

lemma pdf_text_loop_fst:
  "fst (pdf_text_loop pages acc) =
     acc @ concat (map page_text (takeWhile (\<lambda>pg. \<not> text_raises pg) pages))"
proof (induction pages arbitrary: acc)
  case Nil
  then show ?case by simp
next
  case (Cons page pages)
  show ?case
  proof (cases "extract_text page")
    case (Inl e)
    then have "text_raises page" by (simp add: text_raises_def)
    then show ?thesis using Inl by simp
  next
    case (Inr x)
    then have ok: "\<not> text_raises page" by (simp add: text_raises_def)
    show ?thesis
    proof (cases x)
      case None
      then have "page_text page = []" using Inr by (simp add: page_text_def)
      then show ?thesis using Inr None ok Cons.IH by simp
    next
      case (Some t)
      then have "page_text page = (if t \<noteq> [] then t @ [LF] else [])"
        using Inr by (simp add: page_text_def)
      then show ?thesis using Inr Some ok Cons.IH by simp
    qed
  qed
qed

lemma pdf_text_loop_error:
  "(snd (pdf_text_loop pages acc) = None) = (\<not> list_ex text_raises pages)"
proof (induction pages arbitrary: acc)
  case Nil
  then show ?case by simp
next
  case (Cons page pages)
  show ?case
  proof (cases "extract_text page")
    case (Inl e)
    then have "text_raises page" by (simp add: text_raises_def)
    then show ?thesis using Inl by simp
  next
    case (Inr x)
    then have ok: "\<not> text_raises page" by (simp add: text_raises_def)
    show ?thesis using Inr ok Cons.IH by (cases x) simp_all
  qed
qed

lemma pdf_tables_loop_eq:
  "pdf_tables_loop pages acc =
     acc @ concat (map page_table_rows (takeWhile (\<lambda>pg. \<not> tables_raise pg) pages))"
proof (induction pages arbitrary: acc)
  case Nil
  then show ?case by simp
next
  case (Cons page pages)
  show ?case
  proof (cases "extract_tables page")
    case (Inl e)
    then have "tables_raise page" by (simp add: tables_raise_def)
    then show ?thesis using Inl by simp
  next
    case (Inr tables)
    then have ok: "\<not> tables_raise page" by (simp add: tables_raise_def)
    have "page_table_rows page = concat (map row_line (concat tables))"
      using Inr by (simp add: page_table_rows_def)
    then show ?thesis using Inr ok Cons.IH by simp
  qed
qed

lemma extract_pdf_total:
  "import_error env ''pdfplumber'' = None \<Longrightarrow> \<exists>t. extract_pdf env w path = Inr t"
  by (auto simp: extract_pdf_def split: sum.splits option.splits prod.splits)

lemma extract_pdf_pages:
  assumes "import_error env ''pdfplumber'' = None" and "pdfplumber_open env w path = Inr pages"
  shows "extract_pdf env w path =
           Inr (concat (map page_text (takeWhile (\<lambda>pg. \<not> text_raises pg) pages)) @
                (if list_ex text_raises pages
                 then concat (map page_table_rows (takeWhile (\<lambda>pg. \<not> tables_raise pg) pages))
                 else []))"
proof -
  obtain ft err where l: "pdf_text_loop pages [] = (ft, err)" by (cases "pdf_text_loop pages []")
  have ft: "ft = concat (map page_text (takeWhile (\<lambda>pg. \<not> text_raises pg) pages))"
    using pdf_text_loop_fst[of pages "[]"] l by simp
  have err: "(err = None) = (\<not> list_ex text_raises pages)"
    using pdf_text_loop_error[of pages "[]"] l by simp
  show ?thesis
  proof (cases err)
    case None
    then show ?thesis using assms l ft err by (simp add: extract_pdf_def)
  next
    case (Some e)
    then show ?thesis using assms l ft err
      by (simp add: extract_pdf_def pdf_tables_loop_eq)
  qed
qed

lemma page_facts:
  "page_text text_page = ''Report\<newline>''" "page_text scanned_page = []"
  "text_raises text_page = False" "text_raises scanned_page = False"
  "text_raises raising_page = True"
  "tables_raise text_page = False" "tables_raise scanned_page = False"
  "tables_raise raising_page = True"
  "page_table_rows text_page = ''Age  42\<newline>''"
  "page_table_rows scanned_page = ''Name Smith\<newline>''"
  by (simp_all add: page_text_def text_raises_def tables_raise_def page_table_rows_def
        row_line_def text_page_def scanned_page_def raising_page_def)

section \<open>The dictionaries built during a batch\<close>

lemma process_file_builds:
  "builds (fst (snd (process_file env cfg w p))) =
     (case extract_full_text env (snd (uuid4 env w)) p (file_ext_of (basename p)) of
        Inl e \<Rightarrow> []
      | Inr t \<Rightarrow>
          (case analyze env t (selected_entities cfg) (score_threshold cfg) of
             Inl e \<Rightarrow> []
           | Inr results \<Rightarrow>
               [build_operators (anonymization_method cfg) (selected_entities cfg)]))"
  by (simp add: process_file_def anonymize_text_presidio_def Let_def split_beta builds_append
        split: sum.splits prod.splits)

lemma process_files_builds:
  "\<exists>n\<le>length files.
     builds (fst (snd (process_files env cfg w files))) =
       replicate n (build_operators (anonymization_method cfg) (selected_entities cfg))"
proof (induction files arbitrary: w)
  case Nil
  then show ?case by simp
next
  case (Cons p ps)
  let ?B = "build_operators (anonymization_method cfg) (selected_entities cfg)"
  let ?w1 = "snd (snd (process_file env cfg w p))"
  obtain n where n: "n \<le> length ps"
    "builds (fst (snd (process_files env cfg ?w1 ps))) = replicate n ?B"
    using Cons.IH[of ?w1] by blast
  have one: "builds (fst (snd (process_file env cfg w p))) = [] \<or>
             builds (fst (snd (process_file env cfg w p))) = [?B]"
    by (simp add: process_file_builds split: sum.splits)
  have split: "builds (fst (snd (process_files env cfg w (p # ps)))) =
                 builds (fst (snd (process_file env cfg w p))) @
                 builds (fst (snd (process_files env cfg ?w1 ps)))"
    by (simp add: split_beta Let_def builds_append)
  from one show ?case
  proof
    assume "builds (fst (snd (process_file env cfg w p))) = []"
    then have "builds (fst (snd (process_files env cfg w (p # ps)))) = replicate n ?B"
      using split n by simp
    then show ?thesis using n(1) by (intro exI[of _ n]) simp
  next
    assume "builds (fst (snd (process_file env cfg w p))) = [?B]"
    then have "builds (fst (snd (process_files env cfg w (p # ps)))) = replicate (Suc n) ?B"
      using split n by simp
    then show ?thesis using n(1) by (intro exI[of _ "Suc n"]) simp
  qed
qed

lemma example_pair_run:
  "process_files disk_env example_config example_disk [''/in/a/x.txt'', ''/in/b/x.txt''] =
     ([\<lparr>original_file_name = ''x.txt'', anonymized_file_name = ''x_anonymized.txt'',
        uuid = ''uuid-1''\<rparr>,
       \<lparr>original_file_name = ''x.txt'', anonymized_file_name = ''x_anonymized.txt'',
        uuid = ''uuid-11''\<rparr>],
      [PolicyEngineCalled ''first'',
       OperatorsBuilt (build_operators ''mask'' [''PERSON'', ''PHONE_NUMBER'']),
       OutputSaved ''/out/x_anonymized.txt'',
       PolicyEngineCalled ''second'',
       OperatorsBuilt (build_operators ''mask'' [''PERSON'', ''PHONE_NUMBER'']),
       OutputSaved ''/out/x_anonymized.txt''],
      example_disk\<lparr>issued := 2,
        contents := (contents example_disk)
          (''/out/x_anonymized.txt'' \<mapsto> StoredText ''second'')\<rparr>)"
  by (simp add: disk_process_text_file example_names example_disk_def example_config_def)

section \<open>Writing and extracting again\<close>






















section \<open>Claims\<close>

text \<open>
  C5, evaluated on the code.  The file \<open>notes.txt.backup.txt\<close> is selected by the
  discovery and has the extension \<open>.txt\<close>; its output name has the marker before both
  occurrences of \<open>.txt\<close>, not only before the final one, because \<open>str.replace\<close>
  rewrites every occurrence.
\<close>

theorem new_file_name_marks_every_occurrence:
  "is_selected ''notes.txt.backup.txt'' \<and>
   file_ext_of ''notes.txt.backup.txt'' = ''.txt'' \<and>
   new_file_name ''.txt'' ''notes.txt.backup.txt'' =
     ''notes_anonymized.txt.backup_anonymized.txt''"
  by (simp add: is_selected_def supported_suffixes_def endswith_def startswith_def
        file_ext_of_def lower_def lower_char_def splitext_def rfind_def
        new_file_name_def replace.simps)

text \<open>
  C7, evaluated on the code.  The file named \<open>.txt\<close> is selected by the discovery, its
  extension by \<open>os.path.splitext\<close> is empty, and its iteration appends an error record
  without calling the policy engine, whatever the libraries and the configuration are.
\<close>

theorem suffix_only_name_gets_error_record:
  "is_selected ''.txt'' \<and>
   file_ext_of (basename ''/in/.txt'') = [] \<and>
   process_file env cfg w ''/in/.txt'' =
     (\<lparr>original_file_name = ''.txt'', anonymized_file_name = ''ERROR'',
       uuid = ''Error: Unsupported file type: ''\<rparr>, [], snd (uuid4 env w))"
proof -
  have sel: "is_selected ''.txt''"
    by (simp add: is_selected_def supported_suffixes_def endswith_def startswith_def)
  have base: "basename ''/in/.txt'' = ''.txt''"
    by (simp add: basename_def rfind_def)
  have ext: "file_ext_of ''.txt'' = []"
    by (simp add: file_ext_of_def lower_def splitext_def rfind_def)
  have "process_file env cfg w ''/in/.txt'' =
          (error_record ''.txt'' ''Unsupported file type: '', [], snd (uuid4 env w))"
    by (simp add: process_file_def base ext extract_full_text_def Let_def split_beta)
  then show ?thesis using sel base ext by (simp add: error_record_def)
qed

text \<open>
  C2.  The loop appends exactly one record per file of \<open>supported_files\<close>, in the order
  of the list, whatever each iteration does; the record at a position carries the base
  name of the file at that position.  A run that completes has discovered at least one
  file and its mappings are those of the loop over the discovered files.
\<close>

theorem one_record_per_discovered_file:
  "length (fst (process_files env cfg w files)) = length files \<and>
   map original_file_name (fst (process_files env cfg w files)) = map basename files \<and>
   (onAnonymizeButton env cfg w = Complete recs evs w' \<longrightarrow>
      discover env w (input_folder cfg) \<noteq> [] \<and>
      length recs = length (discover env w (input_folder cfg)) \<and>
      map original_file_name recs = map basename (discover env w (input_folder cfg)))"
  using complete_run[of env cfg w recs evs w']
  by (auto simp: process_files_length process_files_original)

theorem one_record_per_discovered_file_witness:
  "\<exists>recs evs d.
     onAnonymizeButton disk_env example_config example_disk = Complete recs evs d \<and>
     length recs = 4 \<and>
     map original_file_name recs = [''.txt'', ''x.txt'', ''x.txt'', ''broken.txt'']"
proof -
  obtain recs evs d where
    run: "onAnonymizeButton disk_env example_config example_disk = Complete recs evs d"
    using example_complete by blast
  have "length recs = 4 \<and>
        map original_file_name recs = [''.txt'', ''x.txt'', ''x.txt'', ''broken.txt'']"
    using one_record_per_discovered_file[of disk_env example_config example_disk "[]" recs evs d]
      run
    by (simp add: example_discover example_names example_config_def)
  then show ?thesis
    using run by (intro exI[of _ recs] exI[of _ evs] exI[of _ d]) simp
qed

text \<open>
  C1.  When the extraction of a file raises, or its text is extracted and the save
  raises, the iteration appends the record with the output name \<open>ERROR\<close> and the third
  field \<open>Error: \<close> followed by the message, and the loop goes on with the files that
  follow: the mappings of the batch are this record followed by the mappings of the rest,
  one per file.  The anonymization step itself never raises: its handler returns the
  text.
\<close>

theorem failure_recorded_and_batch_continues:
  assumes "extract_full_text env (snd (uuid4 env w)) p (file_ext_of (basename p)) = Inl e \<or>
           (\<exists>t. extract_full_text env (snd (uuid4 env w)) p (file_ext_of (basename p)) = Inr t \<and>
                fst (save_output env (snd (uuid4 env w)) (output_folder cfg) (basename p)
                       (file_ext_of (basename p))
                       (fst (anonymize_text_presidio env t (selected_entities cfg)
                               (anonymization_method cfg) (score_threshold cfg)))) = Inl e)"
  shows "fst (process_file env cfg w p) =
           \<lparr>original_file_name = basename p, anonymized_file_name = ''ERROR'',
            uuid = ''Error: '' @ e\<rparr> \<and>
         fst (process_files env cfg w (p # ps)) =
           \<lparr>original_file_name = basename p, anonymized_file_name = ''ERROR'',
            uuid = ''Error: '' @ e\<rparr> #
           fst (process_files env cfg (snd (snd (process_file env cfg w p))) ps) \<and>
         length (fst (process_files env cfg w (p # ps))) = Suc (length ps) \<and>
         map original_file_name (fst (process_files env cfg w (p # ps))) =
           basename p # map basename ps"
proof -
  have one: "fst (process_file env cfg w p) = error_record (basename p) e"
    using assms
    by (auto simp: process_file_def Let_def split_beta split: sum.splits prod.splits)
  have step: "fst (process_files env cfg w (p # ps)) =
                fst (process_file env cfg w p) #
                fst (process_files env cfg (snd (snd (process_file env cfg w p))) ps)"
    by (simp add: split_beta Let_def)
  show ?thesis
    using one step process_files_length[of env cfg w "p # ps"]
      process_files_original[of env cfg w "p # ps"]
    by (simp add: error_record_def)
qed

theorem failure_recorded_and_batch_continues_witness:
  "fst (process_files disk_env example_config example_disk
          [''/in/b/broken.txt'', ''/in/a/x.txt'']) =
     [\<lparr>original_file_name = ''broken.txt'', anonymized_file_name = ''ERROR'',
       uuid = ''Error: cannot read as text''\<rparr>,
      \<lparr>original_file_name = ''x.txt'', anonymized_file_name = ''x_anonymized.txt'',
       uuid = ''uuid-11''\<rparr>]"
proof -
  have raised: "extract_full_text disk_env (snd (uuid4 disk_env example_disk)) ''/in/b/broken.txt''
                  (file_ext_of (basename ''/in/b/broken.txt'')) = Inl ''cannot read as text''"
    by (simp add: example_names extract_full_text_def disk_env_fields example_disk_def)
  have after: "snd (snd (process_file disk_env example_config example_disk ''/in/b/broken.txt'')) =
                 example_disk\<lparr>issued := Suc 0\<rparr>"
    by (simp add: disk_process_text_file example_names example_disk_def)
  show ?thesis
    using failure_recorded_and_batch_continues[where env = disk_env and w = example_disk
        and p = "''/in/b/broken.txt''" and e = "''cannot read as text''"
        and cfg = example_config and ps = "[''/in/a/x.txt'']", OF disjI1, OF raised]
    by (simp add: after example_names disk_process_text_file example_disk_def example_config_def)
qed




text \<open>
  C3.  When the detection raises, or the detection returns and the transformation
  raises, \<open>anonymize_text_presidio\<close> returns the text it was given.  If that text is the
  one extracted from a file and its save does not raise, the iteration appends a record
  with the output name derived from the file name, which is never the sentinel
  \<open>ERROR\<close>, and with the identifier generated for the file.
\<close>

theorem collaborator_failure_is_nominal_success:
  assumes "analyze env t (selected_entities cfg) (score_threshold cfg) = Inl e \<or>
           (\<exists>results. analyze env t (selected_entities cfg) (score_threshold cfg) = Inr results \<and>
              anonymize env t results
                (if Mapping.is_empty
                      (build_operators (anonymization_method cfg) (selected_entities cfg))
                 then None
                 else Some (build_operators (anonymization_method cfg) (selected_entities cfg)))
                = Inl e)"
  shows "fst (anonymize_text_presidio env t (selected_entities cfg) (anonymization_method cfg)
                (score_threshold cfg)) = t \<and>
         (extract_full_text env (snd (uuid4 env w)) p (file_ext_of (basename p)) = Inr t \<and>
          fst (save_output env (snd (uuid4 env w)) (output_folder cfg) (basename p)
                 (file_ext_of (basename p)) t) = Inr saved \<longrightarrow>
          fst (process_file env cfg w p) =
            \<lparr>original_file_name = basename p,
             anonymized_file_name = new_file_name (file_ext_of (basename p)) (basename p),
             uuid = fst (uuid4 env w)\<rparr> \<and>
          new_file_name (file_ext_of (basename p)) (basename p) \<noteq> ''ERROR'')"
proof -
  have unchanged: "fst (anonymize_text_presidio env t (selected_entities cfg) (anonymization_method cfg)
                     (score_threshold cfg)) = t"
    using assms by (rule anonymize_text_presidio_fallback)
  show ?thesis
    using unchanged nominal_success_record[OF unchanged, of w p saved] by blast
qed

theorem collaborator_failure_is_nominal_success_witness:
  "fst (anonymize_text_presidio failing_detection_env ''first''
          (selected_entities example_config) (anonymization_method example_config)
          (score_threshold example_config)) = ''first'' \<and>
   fst (process_file failing_detection_env example_config example_disk ''/in/a/x.txt'') =
     \<lparr>original_file_name = ''x.txt'', anonymized_file_name = ''x_anonymized.txt'',
      uuid = ''uuid-1''\<rparr>"
proof -
  have raised: "analyze failing_detection_env ''first'' (selected_entities example_config)
                  (score_threshold example_config) = Inl ''detection failed''"
    by (simp add: failing_env_fields)
  have ex: "extract_full_text failing_detection_env (snd (uuid4 failing_detection_env example_disk))
              ''/in/a/x.txt'' (file_ext_of (basename ''/in/a/x.txt'')) = Inr ''first''"
    by (simp add: example_names extract_full_text_def failing_env_fields disk_env_fields
          example_disk_def)
  have sv: "fst (save_output failing_detection_env (snd (uuid4 failing_detection_env example_disk))
                   (output_folder example_config) (basename ''/in/a/x.txt'')
                   (file_ext_of (basename ''/in/a/x.txt'')) ''first'') =
              Inr (''x_anonymized.txt'', ''/out/x_anonymized.txt'')"
    by (simp add: example_names save_output_def failing_env_fields disk_env_fields store_def
          example_config_def Let_def)
  show ?thesis
    using collaborator_failure_is_nominal_success[where env = failing_detection_env
        and t = "''first''" and cfg = example_config and e = "''detection failed''"
        and w = example_disk and p = "''/in/a/x.txt''"
        and saved = "(''x_anonymized.txt'', ''/out/x_anonymized.txt'')", OF disjI1, OF raised]
      ex sv
    by (simp add: example_names failing_env_fields disk_env_fields example_disk_def)
qed

text \<open>
  C10.  The discovery compares the end of a file name with the six suffixes as they are
  written, in lower case.  A file whose name ends with none of them, as
  \<open>report.TXT\<close> and \<open>scan.PDF\<close> do not, is not selected: where \<open>os.walk\<close> lists
  plain names, it is the base name of no discovered path and the original name of no
  record of the batch.  The dispatch would have lowered its extension to a supported
  one.
\<close>

theorem discovery_is_case_sensitive:
  assumes "walk_names_ok env w folder"
    and "\<not> list_ex (endswith f) supported_suffixes"
  shows "\<not> is_selected f \<and>
         f \<notin> basename ` set (discover env w folder) \<and>
         f \<notin> original_file_name ` set (fst (process_files env cfg w' (discover env w folder))) \<and>
         \<not> is_selected ''report.TXT'' \<and> file_ext_of ''report.TXT'' = ''.txt'' \<and>
         \<not> is_selected ''scan.PDF'' \<and> file_ext_of ''scan.PDF'' = ''.pdf''"
proof -
  have ns: "\<not> is_selected f" using assms(2) by (simp add: is_selected_def)
  have nd: "f \<notin> basename ` set (discover env w folder)"
    using discover_selected[OF assms(1)] ns by auto
  have "original_file_name ` set (fst (process_files env cfg w' (discover env w folder))) =
        basename ` set (discover env w folder)"
    using process_files_original[of env cfg w' "discover env w folder"]
    by (metis set_map)
  then have nr: "f \<notin> original_file_name `
                        set (fst (process_files env cfg w' (discover env w folder)))"
    using nd by simp
  have up: "\<not> is_selected ''report.TXT'' \<and> file_ext_of ''report.TXT'' = ''.txt'' \<and>
            \<not> is_selected ''scan.PDF'' \<and> file_ext_of ''scan.PDF'' = ''.pdf''"
    by (simp add: is_selected_def supported_suffixes_def endswith_def file_ext_of_def
          lower_def lower_char_def splitext_def rfind_def)
  show ?thesis using ns nd nr up by simp
qed

theorem discovery_is_case_sensitive_witness:
  "''report.TXT'' \<in> set (concat (map (\<lambda>(r, ds, fs). fs) (os_walk disk_env example_disk ''/in''))) \<and>
   ''report.TXT'' \<notin> basename ` set (discover disk_env example_disk ''/in'') \<and>
   ''report.TXT'' \<notin> original_file_name `
      set (fst (process_files disk_env example_config example_disk
                  (discover disk_env example_disk ''/in'')))"
proof -
  have ok: "walk_names_ok disk_env example_disk ''/in''"
    by (simp add: walk_names_ok_def disk_env_fields example_disk_def)
  have up: "\<not> list_ex (endswith ''report.TXT'') supported_suffixes"
    by (simp add: supported_suffixes_def endswith_def)
  have listed: "''report.TXT'' \<in>
                  set (concat (map (\<lambda>(r, ds, fs). fs) (os_walk disk_env example_disk ''/in'')))"
    by (simp add: disk_env_fields example_disk_def)
  show ?thesis
    using discovery_is_case_sensitive[OF ok up, of example_config example_disk] listed
    by simp
qed

text \<open>
  C6, as amended.  With \<open>pdfplumber\<close> importable the extraction of a fixed-layout file
  never raises.  It takes the pages in order and appends the text of each page that has
  one, followed by a line feed; a page without text adds nothing and its tables are not
  read.  Only when a call in that loop raises does the extraction read the file again
  and append, for every page in order up to the first page whose tables raise, the rows
  of its tables: cells joined by a space, an absent cell as the empty string, one row
  per line.
\<close>

theorem pdf_fallback_is_per_file:
  assumes "import_error env ''pdfplumber'' = None"
  shows "(\<exists>t. extract_pdf env w path = Inr t) \<and>
         (pdfplumber_open env w path = Inr pages \<longrightarrow>
            extract_pdf env w path =
              Inr (concat (map page_text (takeWhile (\<lambda>pg. \<not> text_raises pg) pages)) @
                   (if list_ex text_raises pages
                    then concat (map page_table_rows
                                   (takeWhile (\<lambda>pg. \<not> tables_raise pg) pages))
                    else [])))"
  using extract_pdf_total[OF assms] extract_pdf_pages[OF assms] by blast

theorem pdf_fallback_is_per_file_witness:
  "extract_pdf disk_env pdf_disk ''/in/mixed.pdf'' =
     Inr ''Report\<newline>Age  42\<newline>Name Smith\<newline>''"
proof -
  have imp: "import_error disk_env ''pdfplumber'' = None" by (simp add: disk_env_fields)
  have opened: "pdfplumber_open disk_env pdf_disk ''/in/mixed.pdf'' =
                  Inr [text_page, scanned_page, raising_page]"
    by (simp add: disk_env_fields pdf_disk_def)
  show ?thesis
    using pdf_fallback_is_per_file[OF imp, of pdf_disk "''/in/mixed.pdf''"
        "[text_page, scanned_page, raising_page]"] opened
    by (simp add: page_facts)
qed

text \<open>
  C6 as stated fails: a file whose only page has no text layer and one table.  The code
  extracts the empty text; the per-page fallback of the specification would recover
  the row of the table.
\<close>

theorem page_without_text_gets_no_table_fallback:
  "extract_pdf disk_env pdf_disk ''/in/scan.pdf'' = Inr [] \<and>
   spec_extract_pdf [scanned_page] = ''Name Smith\<newline>''"
proof -
  have opened: "pdfplumber_open disk_env pdf_disk ''/in/scan.pdf'' = Inr [scanned_page]"
    by (simp add: disk_env_fields pdf_disk_def)
  have imp: "import_error disk_env ''pdfplumber'' = None" by (simp add: disk_env_fields)
  have "extract_pdf disk_env pdf_disk ''/in/scan.pdf'' = Inr []"
    by (simp add: extract_pdf_def opened imp scanned_page_def)
  moreover have et: "extract_text scanned_page = Inr None" by (simp add: scanned_page_def)
  then have "spec_extract_pdf [scanned_page] = ''Name Smith\<newline>''"
    by (simp add: spec_extract_pdf_def spec_page_text_def page_facts)
  ultimately show ?thesis by simp
qed

text \<open>
  C8, as amended.  The \<open>operators\<close> dictionary is built inside
  \<open>anonymize_text_presidio\<close>: once in the iteration of every file whose extraction and
  detection return, not at all in the others.  Every dictionary built during a batch is
  the one determined by the configured method and entities, so all files get an equal
  plan: empty for \<open>replace\<close> (passed on as \<open>None\<close>), and for each entity the operator
  \<open>redact\<close>, \<open>hash\<close>, or \<open>mask\<close> with the character \<open>*\<close>, 100 characters and
  \<open>from_end\<close> false.
\<close>

theorem operators_rebuilt_for_every_file:
  "builds (fst (snd (process_file env cfg w p))) =
     (case extract_full_text env (snd (uuid4 env w)) p (file_ext_of (basename p)) of
        Inl e \<Rightarrow> []
      | Inr t \<Rightarrow>
          (case analyze env t (selected_entities cfg) (score_threshold cfg) of
             Inl e \<Rightarrow> []
           | Inr results \<Rightarrow>
               [build_operators (anonymization_method cfg) (selected_entities cfg)])) \<and>
   builds (fst (snd (process_files env cfg w files))) =
     replicate (length (builds (fst (snd (process_files env cfg w files)))))
       (build_operators (anonymization_method cfg) (selected_entities cfg)) \<and>
   length (builds (fst (snd (process_files env cfg w files)))) \<le> length files \<and>
   build_operators ''replace'' entities = Mapping.empty \<and>
   build_operators ''redact'' entities =
     Mapping.tabulate entities (\<lambda>entity. OperatorConfig ''redact'' []) \<and>
   build_operators ''hash'' entities =
     Mapping.tabulate entities (\<lambda>entity. OperatorConfig ''hash'' []) \<and>
   build_operators ''mask'' entities =
     Mapping.tabulate entities
       (\<lambda>entity. OperatorConfig ''mask''
          [(''masking_char'', StrParam ''*''), (''chars_to_mask'', IntParam 100),
           (''from_end'', BoolParam False)])"
proof -
  obtain n where n: "n \<le> length files"
    "builds (fst (snd (process_files env cfg w files))) =
       replicate n (build_operators (anonymization_method cfg) (selected_entities cfg))"
    using process_files_builds[of files env cfg w] by blast
  have len: "length (builds (fst (snd (process_files env cfg w files)))) = n"
    using n(2) by simp
  show ?thesis
    using n len process_file_builds[of env cfg w p]
    by (simp add: build_operators_def)
qed

theorem operators_rebuilt_for_every_file_witness:
  "builds (fst (snd (process_files disk_env example_config example_disk
                       [''/in/a/x.txt'', ''/in/b/x.txt'']))) =
     replicate 2 (build_operators ''mask'' [''PERSON'', ''PHONE_NUMBER''])"
proof -
  have len: "length (builds (fst (snd (process_files disk_env example_config example_disk
                       [''/in/a/x.txt'', ''/in/b/x.txt''])))) = 2"
    unfolding example_pair_run by simp
  have cfg: "anonymization_method example_config = ''mask''"
    "selected_entities example_config = [''PERSON'', ''PHONE_NUMBER'']"
    by (simp_all add: example_config_def)
  show ?thesis
    using operators_rebuilt_for_every_file[of disk_env example_config example_disk
        "''/in/a/x.txt''" "[''/in/a/x.txt'', ''/in/b/x.txt'']"]
    unfolding len cfg by simp
qed

text \<open>
  C8 as stated fails: in a run over two files the policy engine is called twice and the
  dictionary is built twice, not once for the run.
\<close>

theorem operators_built_twice_in_a_run_of_two_files:
  "length (builds (fst (snd (process_files disk_env example_config example_disk
                               [''/in/a/x.txt'', ''/in/b/x.txt''])))) = 2 \<and>
   length (policy_engine_calls (fst (snd (process_files disk_env example_config example_disk
                               [''/in/a/x.txt'', ''/in/b/x.txt''])))) = 2"
  unfolding example_pair_run by simp




end
